theory Spec2Isabelle
  imports Main "HOL-Library.Char_ord"
begin

section \<open>Characters and strings as the Python code uses them\<close>

text \<open>
  A Python \<open>str\<close> is a sequence of Unicode code points: it is modelled as a list of
  integers (what \<open>ord\<close> gives for each character), and \<open>py\<close> turns a literal of the
  theory into such a list.
\<close>

type_synonym ustring = "int list"

definition py :: "string \<Rightarrow> ustring" where
  "py s = map of_char s"

text \<open>
  Whitespace. \<open>str.strip()\<close>, \<open>str.isspace()\<close> and the class \<open>\s\<close> of a regular
  expression on \<open>str\<close> use one and the same set of code points: the ASCII controls
  0x09..0x0D and 0x1C..0x1F, the space, and the Unicode spaces and separators 0x85,
  0xA0, 0x1680, 0x2000..0x200A, 0x2028, 0x2029, 0x202F, 0x205F and 0x3000.
\<close>

definition isspace :: "int \<Rightarrow> bool" where
  "isspace c = (c \<in> set [0x09, 0x0A, 0x0B, 0x0C, 0x0D, 0x1C, 0x1D, 0x1E, 0x1F, 0x20,
                          0x85, 0xA0, 0x1680, 0x2028, 0x2029, 0x202F, 0x205F, 0x3000]
                \<or> (0x2000 \<le> c \<and> c \<le> 0x200A))"

text \<open>
  What the program takes from the Python library and does not define itself: the
  line wrapper \<open>textwrap.fill(text, width=80)\<close>, and the case tables of the Unicode
  character database behind \<open>str.islower()\<close> and \<open>str.upper()\<close> on a string of one
  character (\<open>upper\<close> may give more than one character, as for \<open>U+00DF\<close>). They are the
  fields of a parameter of the model; nothing is assumed about them unless a theorem
  says so.
\<close>

record python_library =
  fill :: "ustring \<Rightarrow> ustring"
  islower :: "int \<Rightarrow> bool"
  upper :: "int \<Rightarrow> ustring"

text \<open>\<open>s.strip()\<close>: whitespace removed at both ends.\<close>

definition strip :: "ustring \<Rightarrow> ustring" where
  "strip s = rev (dropWhile isspace (rev (dropWhile isspace s)))"

text \<open>\<open>" ".join(xs)\<close>\<close>

fun join_space :: "ustring list \<Rightarrow> ustring" where
  "join_space [] = []"
| "join_space [s] = s"
| "join_space (s # t # ss) = s @ py '' '' @ join_space (t # ss)"

text \<open>
  The guarded capitalisation that the source writes twice (lines 27-28 and 35-36):
  \<open>if s and s[0].islower(): s = s[0].upper() + s[1:]\<close>.
\<close>

fun capitalize_first :: "python_library \<Rightarrow> ustring \<Rightarrow> ustring" where
  "capitalize_first lib [] = []"
| "capitalize_first lib (c # cs) = (if islower lib c then upper lib c @ cs else c # cs)"

text \<open>The character class \<open>[.!?]\<close> of both regular expressions.\<close>

definition is_terminal :: "int \<Rightarrow> bool" where
  "is_terminal c = (c \<in> set (py ''.!?''))"

text \<open>
  \<open>re.split(r'(?<=[.!?])\s+', text)\<close>: the text is cut at every maximal run of
  whitespace that directly follows one of \<open>.\<close>, \<open>!\<close>, \<open>?\<close>; the run itself is dropped.
  A whitespace run cannot begin a match in its middle (the look-behind would see
  whitespace), so the matches are exactly these runs, found from left to right.
  The result is never the empty list: the empty text gives \<open>['']\<close>.
\<close>

function re_split :: "ustring \<Rightarrow> ustring list" where
  "re_split [] = [[]]"
| "re_split (c # cs) =
     (if is_terminal c \<and> cs \<noteq> [] \<and> isspace (hd cs)
      then [c] # re_split (dropWhile isspace cs)
      else (case re_split cs of
              [] \<Rightarrow> [[c]]
            | p # ps \<Rightarrow> (c # p) # ps))"
  by pat_completeness auto
termination
  by (relation "measure length") (auto simp: le_imp_less_Suc length_dropWhile_le)

text \<open>
  \<open>re.search(r'[.!?]\s*$', sentence)\<close>: some \<open>.\<close>, \<open>!\<close> or \<open>?\<close> is followed by
  whitespace only up to the end of the string, that is, the last character that is
  not whitespace is one of the three. (\<open>$\<close> also matches before a final line feed,
  which is whitespace itself.)
\<close>

definition ends_terminal :: "ustring \<Rightarrow> bool" where
  "ends_terminal s = (case dropWhile isspace (rev s) of [] \<Rightarrow> False | c # _ \<Rightarrow> is_terminal c)"

section \<open>format_transcription\<close>

text \<open>
  The paragraphing loop of lines 46-58. The state is the pair
  \<open>(formatted_text, paragraph)\<close>; \<open>i\<close> is the index that \<open>enumerate\<close> supplies.
\<close>

definition paragraph_step :: "nat \<Rightarrow> ustring \<Rightarrow> ustring \<times> ustring \<Rightarrow> ustring \<times> ustring" where
  "paragraph_step i sentence st =
     (let formatted_text = fst st;
          paragraph = snd st @ sentence @ py '' ''
      in if (i + 1) mod 4 = 0 \<or> ends_terminal sentence
         then (formatted_text @ strip paragraph @ py ''\<newline>\<newline>'', [])
         else (formatted_text, paragraph))"

fun paragraph_loop :: "nat \<Rightarrow> ustring list \<Rightarrow> ustring \<times> ustring \<Rightarrow> ustring \<times> ustring" where
  "paragraph_loop i [] st = st"
| "paragraph_loop i (sentence # rest) st = paragraph_loop (Suc i) rest (paragraph_step i sentence st)"

text \<open>Lines 56-60: the remaining text is appended, stripped.\<close>

definition paragraph_finish :: "ustring \<times> ustring \<Rightarrow> ustring" where
  "paragraph_finish st = (if snd st \<noteq> [] then fst st @ strip (snd st) else fst st)"

text \<open>\<open>format_transcription\<close>, lines 14-60.\<close>

definition format_transcription :: "python_library \<Rightarrow> ustring \<Rightarrow> ustring" where
  "format_transcription lib text =
     (if text = [] then []
      else
        let text = strip text;
            text = capitalize_first lib text;
            sentences = re_split text;
            sentences = map (capitalize_first lib) sentences;
            text = join_space sentences;
            wrapped_text = fill lib text;
            sentences = re_split wrapped_text
        in paragraph_finish (paragraph_loop 0 sentences ([], [])))"

section \<open>format_time\<close>

text \<open>
  \<open>str(n)\<close> for a natural number, and the format specification \<open>0wd\<close> of an f-string.
  Their results hold digits, a sign and punctuation only and are kept as strings of
  the theory; \<open>py\<close> turns them into Python strings where they are joined with text.
\<close>

fun str_nat :: "nat \<Rightarrow> string" where
  "str_nat n =
     (if n < 10 then [''0123456789'' ! n]
      else str_nat (n div 10) @ [''0123456789'' ! (n mod 10)])"

definition zfill :: "nat \<Rightarrow> string \<Rightarrow> string" where
  "zfill w s = replicate (w - length s) (CHR ''0'') @ s"

text \<open>
  \<open>f"{x:0wd}"\<close>: the decimal digits padded with zeros on the left to width \<open>w\<close>; a
  negative number keeps its sign in front and the sign counts in the width.
\<close>

definition fmt_d :: "nat \<Rightarrow> int \<Rightarrow> string" where
  "fmt_d w x =
     (if x < 0 then CHR ''-'' # zfill (w - 1) (str_nat (nat (- x)))
      else zfill w (str_nat (nat x)))"

text \<open>
  \<open>format_time\<close>, lines 62-67. Python's \<open>divmod\<close> on integers is floor division and
  its remainder, as \<open>div\<close> and \<open>mod\<close> on \<open>int\<close> are.
\<close>

definition format_time :: "int \<Rightarrow> string" where
  "format_time milliseconds =
     (let seconds = milliseconds div 1000;
          milliseconds = milliseconds mod 1000;
          minutes = seconds div 60;
          seconds = seconds mod 60;
          hours = minutes div 60;
          minutes = minutes mod 60
      in fmt_d 2 hours @ '':'' @ fmt_d 2 minutes @ '':'' @ fmt_d 2 seconds @ '','' @
         fmt_d 3 milliseconds)"

section \<open>The transcription pipeline\<close>

text \<open>
  What the external libraries do is input to the model. A chunk of audio carries its
  length in milliseconds (\<open>len(chunk)\<close>), the exception, if any, that exporting it to a
  wav file and reading that file back raises (\<open>chunk.export\<close>, \<open>sr.AudioFile\<close>,
  \<open>recognizer.record\<close>: lines 158-162, outside the inner \<open>try\<close>), and what
  \<open>recognizer.recognize_google\<close> does on it: it returns a text, raises
  \<open>sr.UnknownValueError\<close>, or raises any other exception. An exception of lines
  158-162 is modelled as raised before the chunk file appears in the directory.
\<close>

datatype recognition = Recognized ustring | UnknownValueError | OtherError ustring

record chunk =
  duration :: nat
  export_error :: "ustring option"
  recognition :: recognition

text \<open>
  Loading, normalising and splitting the audio (lines 90-119) either raises or gives
  the list of chunks.
\<close>

datatype audio = LoadFails ustring | SplitFails ustring | Splits "chunk list"

text \<open>The dictionaries appended to \<open>subtitle_entries\<close> (lines 170-175).\<close>

record subtitle_entry =
  e_index :: nat
  e_start :: int
  e_end :: int
  e_text :: ustring

text \<open>
  The world the pipeline acts on: the directory \<open>temp_audio_chunks\<close> (\<open>None\<close> when it
  does not exist, else the names of its entries, in the order in which \<open>os.listdir\<close>
  gives them), the output files written, in order, as pairs of path and content, the
  messages passed to \<open>update_callback\<close> (a caller that gives no callback ignores them),
  and the exceptions, if any, that the file system raises: \<open>open(path, "w")\<close> for a
  path, \<open>os.mkdir\<close> for the directory, \<open>os.remove\<close> for an entry of the directory (a
  subdirectory, for one) and \<open>os.rmdir\<close> for the directory. The output paths are taken
  to lie outside the directory.
\<close>

record world =
  temp_dir :: "ustring list option"
  written :: "(ustring \<times> ustring) list"
  status :: "ustring list"
  open_error :: "ustring \<Rightarrow> ustring option"
  mkdir_error :: "ustring option"
  remove_error :: "ustring \<Rightarrow> ustring option"
  rmdir_error :: "ustring option"

text \<open>The variables of the loop over the chunks (lines 141-144).\<close>

record loop_vars =
  current_position :: int
  segment_texts :: "ustring list"
  subtitle_entries :: "subtitle_entry list"

definition initial_vars :: loop_vars where
  "initial_vars = \<lparr>current_position = 0, segment_texts = [], subtitle_entries = []\<rparr>"

definition update_callback :: "ustring \<Rightarrow> world \<Rightarrow> world" where
  "update_callback message w = w\<lparr>status := status w @ [message]\<rparr>"

definition chunk_filename :: "nat \<Rightarrow> ustring" where
  "chunk_filename i = py (''chunk'' @ str_nat i @ ''.wav'')"

text \<open>Lines 151-153: \<open>(start_time, end_time)\<close> of a chunk, from the cursor.\<close>

definition chunk_times :: "int \<Rightarrow> chunk \<Rightarrow> int \<times> int" where
  "chunk_times position c = (position, position + int (duration c))"

definition chunk_message :: "nat \<Rightarrow> nat \<Rightarrow> ustring \<Rightarrow> ustring" where
  "chunk_message i n s = py (''Chunk '' @ str_nat (i + 1) @ ''/'' @ str_nat n @ '': '') @ s"

text \<open>
  One iteration of the loop (lines 149-184) on chunk \<open>i\<close> of \<open>n\<close>. An exception that
  leaves the loop is \<open>Inl\<close> of its message and the world at that moment.
\<close>

definition process_chunk ::
  "nat \<Rightarrow> nat \<Rightarrow> chunk \<Rightarrow> loop_vars \<times> world \<Rightarrow> (ustring \<times> world) + (loop_vars \<times> world)" where
  "process_chunk n i c vw =
     (let vars = fst vw; w = snd vw;
          start_time = fst (chunk_times (current_position vars) c);
          end_time = snd (chunk_times (current_position vars) c);
          vars = vars\<lparr>current_position := end_time\<rparr>
      in case export_error c of
           Some e \<Rightarrow> Inl (e, w)
         | None \<Rightarrow>
             let w = w\<lparr>temp_dir := map_option (List.insert (chunk_filename i)) (temp_dir w)\<rparr>
             in (case recognition c of
                   Recognized text \<Rightarrow>
                     if text \<noteq> [] then
                       Inr (vars\<lparr>segment_texts := segment_texts vars @ [text],
                                 subtitle_entries := subtitle_entries vars @
                                   [\<lparr>e_index = i + 1, e_start = start_time,
                                     e_end = end_time, e_text = text\<rparr>]\<rparr>,
                            update_callback
                              (chunk_message i n (py ''Transcribed successfully'')) w)
                     else Inr (vars, w)
                 | UnknownValueError \<Rightarrow>
                     Inr (vars, update_callback
                                  (chunk_message i n (py ''Could not understand audio'')) w)
                 | OtherError e \<Rightarrow>
                     Inr (vars, update_callback (chunk_message i n (py ''Error - '' @ e)) w)))"

fun process_chunks ::
  "nat \<Rightarrow> nat \<Rightarrow> chunk list \<Rightarrow> loop_vars \<times> world \<Rightarrow> (ustring \<times> world) + (loop_vars \<times> world)" where
  "process_chunks n i [] vw = Inr vw"
| "process_chunks n i (c # cs) vw =
     (case process_chunk n i c vw of
        Inl ew \<Rightarrow> Inl ew
      | Inr vw' \<Rightarrow> process_chunks n (Suc i) cs vw')"

text \<open>\<open>with open(path, "w") as file: file.write(content)\<close>\<close>

definition write_file :: "ustring \<Rightarrow> ustring \<Rightarrow> world \<Rightarrow> (ustring \<times> world) + world" where
  "write_file path content w =
     (case open_error w path of
        Some e \<Rightarrow> Inl (e, w)
      | None \<Rightarrow> Inr (w\<lparr>written := written w @ [(path, content)]\<rparr>))"

definition sentinel :: ustring where
  "sentinel = py ''No speech detected in the audio file.''"

text \<open>The three lines and the blank line written for one subtitle entry (lines 201-203).\<close>

definition srt_entry :: "subtitle_entry \<Rightarrow> ustring" where
  "srt_entry entry =
     py (str_nat (e_index entry)) @ py ''\<newline>'' @
     py (format_time (e_start entry)) @ py '' --> '' @ py (format_time (e_end entry)) @
     py ''\<newline>'' @
     e_text entry @ py ''\<newline>\<newline>''"

text \<open>Lines 186-216: the two output files.\<close>

definition save_outputs ::
  "python_library \<Rightarrow> loop_vars \<Rightarrow> ustring \<Rightarrow> ustring \<Rightarrow> world \<Rightarrow> (ustring \<times> world) + world" where
  "save_outputs lib vars output_txt_path output_srt_path w =
     (if segment_texts vars \<noteq> [] then
        let full_text = join_space (segment_texts vars);
            formatted_text = format_transcription lib full_text
        in (case write_file output_txt_path formatted_text w of
              Inl ew \<Rightarrow> Inl ew
            | Inr w \<Rightarrow>
                (case write_file output_srt_path
                        (concat (map srt_entry (subtitle_entries vars))) w of
                   Inl ew \<Rightarrow> Inl ew
                 | Inr w \<Rightarrow>
                     Inr (update_callback (py ''Text file saved to: '' @ output_txt_path)
                           (update_callback (py ''SRT file saved to: '' @ output_srt_path) w))))
      else
        (case write_file output_txt_path (py ''No speech detected in the audio file.'') w of
           Inl ew \<Rightarrow> Inl ew
         | Inr w \<Rightarrow>
             (case write_file output_srt_path
                     (py ''1\<newline>00:00:00,000 --> 00:00:01,000\<newline>No speech detected in the audio file.\<newline>'') w of
                Inl ew \<Rightarrow> Inl ew
              | Inr w \<Rightarrow>
                  Inr (update_callback (py ''No speech detected in the audio file.'') w))))"

text \<open>
  Lines 122-124: the directory is created unless it is there; \<open>os.mkdir\<close> may raise.
\<close>

definition make_temp_dir :: "world \<Rightarrow> (ustring \<times> world) + world" where
  "make_temp_dir w =
     (if temp_dir w = None then
        (case mkdir_error w of
           Some e \<Rightarrow> Inl (e, w)
         | None \<Rightarrow> Inr (w\<lparr>temp_dir := Some []\<rparr>))
      else Inr w)"

text \<open>
  Lines 219-220: \<open>for file in os.listdir(temp_dir): os.remove(...)\<close>. The first entry
  that cannot be removed ends the loop with its exception; the entries before it are
  gone by then.
\<close>

fun remove_files :: "ustring list \<Rightarrow> world \<Rightarrow> (ustring \<times> world) + world" where
  "remove_files [] w = Inr w"
| "remove_files (file # files) w =
     (case remove_error w file of
        Some e \<Rightarrow> Inl (e, w)
      | None \<Rightarrow> remove_files files (w\<lparr>temp_dir := map_option (removeAll file) (temp_dir w)\<rparr>))"

text \<open>
  Lines 218-221: the clean-up. \<open>os.listdir\<close> raises when the directory is not there
  (code point 39 is the apostrophe of its message).
\<close>

definition clean_up :: "world \<Rightarrow> (ustring \<times> world) + world" where
  "clean_up w =
     (case temp_dir w of
        None \<Rightarrow> Inl (py ''[Errno 2] No such file or directory: '' @ [39] @ py ''temp_audio_chunks'' @ [39],
                   w)
      | Some files \<Rightarrow>
          (case remove_files files w of
             Inl ew \<Rightarrow> Inl ew
           | Inr w \<Rightarrow>
               (case rmdir_error w of
                  Some e \<Rightarrow> Inl (e, w)
                | None \<Rightarrow> Inr (w\<lparr>temp_dir := None\<rparr>))))"

text \<open>The body of the \<open>try\<close> block (lines 82-225).\<close>

definition pipeline_body ::
  "python_library \<Rightarrow> audio \<Rightarrow> ustring \<Rightarrow> ustring \<Rightarrow> ustring \<Rightarrow> ustring \<Rightarrow> ustring \<Rightarrow> world
     \<Rightarrow> (ustring \<times> world) + world" where
  "pipeline_body lib sound mp3_path output_txt_path output_srt_path language content_type w =
     (let w = update_callback (py ''Processing MP3 file: '' @ mp3_path) w;
          w = update_callback (py ''Selected language: '' @ language) w;
          w = update_callback (py ''Content type: '' @ content_type) w;
          w = update_callback (py ''Loading audio file...'') w
      in case sound of
           LoadFails e \<Rightarrow> Inl (e, w)
         | SplitFails e \<Rightarrow>
             Inl (e, update_callback
                       (py ''Splitting audio on silence (optimized for '' @ content_type @
                        py '')...'') w)
         | Splits chunks \<Rightarrow>
             let w = update_callback
                       (py ''Splitting audio on silence (optimized for '' @ content_type @
                        py '')...'') w
             in (case make_temp_dir w of
                   Inl ew \<Rightarrow> Inl ew
                 | Inr w \<Rightarrow>
                     let w = update_callback
                               (py (''Processing '' @ str_nat (length chunks) @
                                    '' audio segments...'')) w
                     in (case process_chunks (length chunks) 0 chunks (initial_vars, w) of
                           Inl ew \<Rightarrow> Inl ew
                         | Inr vw \<Rightarrow>
                             (case save_outputs lib (fst vw) output_txt_path output_srt_path
                                     (snd vw) of
                                Inl ew \<Rightarrow> Inl ew
                              | Inr w \<Rightarrow>
                                  (case clean_up w of
                                     Inl ew \<Rightarrow> Inl ew
                                   | Inr w \<Rightarrow>
                                       Inr (update_callback
                                              (py ''Transcription complete!'') w))))))"

text \<open>
  \<open>transcribe_mp3_to_text_and_srt\<close>, lines 69-230: the \<open>try\<close> block and its handler,
  which reports the exception and returns \<open>False\<close>. \<open>sound\<close> stands for what the audio
  library makes of the file at \<open>mp3_path\<close>.
\<close>

definition transcribe_mp3_to_text_and_srt ::
  "python_library \<Rightarrow> audio \<Rightarrow> ustring \<Rightarrow> ustring \<Rightarrow> ustring \<Rightarrow> ustring \<Rightarrow> ustring \<Rightarrow> world
     \<Rightarrow> bool \<times> world" where
  "transcribe_mp3_to_text_and_srt lib sound mp3_path output_txt_path output_srt_path
       language content_type w =
     (case pipeline_body lib sound mp3_path output_txt_path output_srt_path
             language content_type w of
        Inr w \<Rightarrow> (True, w)
      | Inl ew \<Rightarrow>
          (False, update_callback (py ''Error during transcription: '' @ fst ew) (snd ew)))"
section \<open>Auxiliary definitions for the statements\<close>

text \<open>
  The text a chunk contributes: what \<open>recognize_google\<close> returned, when it returned a
  text that is not empty (the test \<open>if text:\<close> of line 166).
\<close>

definition spoken :: "chunk \<Rightarrow> ustring option" where
  "spoken c = (case recognition c of Recognized text \<Rightarrow> if text \<noteq> [] then Some text else None | _ \<Rightarrow> None)"

text \<open>
  The subtitle entries that the chunks \<open>cs\<close> give when the loop reaches them with index
  \<open>i\<close> and the cursor at \<open>position\<close>.
\<close>

fun entries_from :: "nat \<Rightarrow> int \<Rightarrow> chunk list \<Rightarrow> subtitle_entry list" where
  "entries_from i position [] = []"
| "entries_from i position (c # cs) =
     (case spoken c of
        Some text \<Rightarrow> [\<lparr>e_index = i + 1, e_start = position,
                       e_end = position + int (duration c), e_text = text\<rparr>]
      | None \<Rightarrow> []) @ entries_from (Suc i) (position + int (duration c)) cs"

text \<open>
  The entry of chunk \<open>i\<close> alone: its own ordinal, and the interval from the sum of the
  durations before it to the sum including it.
\<close>

definition expected_entry :: "chunk list \<Rightarrow> nat \<Rightarrow> subtitle_entry option" where
  "expected_entry cs i =
     map_option (\<lambda>text. \<lparr>e_index = i + 1,
                          e_start = int (sum_list (map duration (take i cs))),
                          e_end = int (sum_list (map duration (take (Suc i) cs))),
                          e_text = text\<rparr>)
                (spoken (cs ! i))"

text \<open>
  The pair \<open>(start_time, end_time)\<close> that the loop computes in iteration \<open>i\<close>: the
  loop is run on the chunks before \<open>i\<close>, then lines 151-153 on chunk \<open>i\<close>.
\<close>

definition interval_of :: "world \<Rightarrow> chunk list \<Rightarrow> nat \<Rightarrow> (int \<times> int) option" where
  "interval_of w cs i =
     (case process_chunks (length cs) 0 (take i cs) (initial_vars, w) of
        Inl ew \<Rightarrow> None
      | Inr vw \<Rightarrow> Some (chunk_times (current_position (fst vw)) (cs ! i)))"

text \<open>The subtitle file of the branch without recognised text (line 213), by its parts.\<close>

definition sentinel_srt :: ustring where
  "sentinel_srt =
     py ''1\<newline>'' @ py (format_time 0) @ py '' --> '' @ py (format_time 1000) @ py ''\<newline>'' @
     sentinel @ py ''\<newline>''"

text \<open>
  Values for the concrete instances below: a world without the directory in which no
  operation of the file system raises, and a chunk that is exported without error.
\<close>

definition fresh_world :: world where
  "fresh_world = \<lparr>temp_dir = None, written = [], status = [], open_error = (\<lambda>path. None),
                   mkdir_error = None, remove_error = (\<lambda>name. None), rmdir_error = None\<rparr>"

definition chunk_of :: "nat \<Rightarrow> recognition \<Rightarrow> chunk" where
  "chunk_of d r = \<lparr>duration = d, export_error = None, recognition = r\<rparr>"

text \<open>
  The text content of a string: its characters that are not whitespace, in order. Two
  strings are equal modulo whitespace when their contents are equal.
\<close>

definition content :: "ustring \<Rightarrow> ustring" where
  "content s = filter (\<lambda>c. \<not> isspace c) s"

text \<open>
  A text is already capitalised when no sentence of it, as \<open>re_split\<close> cuts the stripped
  text, starts with a lower-case letter.
\<close>

definition starts_lower :: "python_library \<Rightarrow> ustring \<Rightarrow> bool" where
  "starts_lower lib s = (case s of [] \<Rightarrow> False | c # _ \<Rightarrow> islower lib c)"

definition capitalized :: "python_library \<Rightarrow> ustring \<Rightarrow> bool" where
  "capitalized lib text = (\<forall>s\<in>set (re_split (strip text)). \<not> starts_lower lib s)"

text \<open>
  The text that \<open>format_transcription\<close> hands to the line wrapper (lines 26-39): the
  stripped text cut into sentences, each with its first letter capitalised, joined by
  single spaces.
\<close>

definition capitalize_sentences :: "python_library \<Rightarrow> ustring \<Rightarrow> ustring" where
  "capitalize_sentences lib text =
     join_space (map (capitalize_first lib) (re_split (capitalize_first lib (strip text))))"

text \<open>
  An invariant of the paragraphing loop: the text emitted so far is empty or holds a
  line feed (code point 10), and the pending paragraph does not end in \<open>.\<close>, \<open>!\<close> or \<open>?\<close>.
\<close>

definition clean :: "ustring \<times> ustring \<Rightarrow> bool" where
  "clean st = ((fst st = [] \<or> 10 \<in> set (fst st)) \<and> \<not> ends_terminal (snd st))"

text \<open>
  Modelled from the spec: the line wrapper \<open>textwrap.fill\<close> of the Python standard
  library, which is not part of this program. The spec describes it as "hard-wrap the
  result to a fixed line width (80 columns), breaking only at whitespace": the words
  between whitespace are put on lines greedily, a word going to the next line when it
  does not fit in the width. It serves as one instance of the field \<open>fill\<close>.
\<close>

function split_words :: "ustring \<Rightarrow> ustring list" where
  "split_words [] = []"
| "split_words (c # cs) =
     (if isspace c then split_words cs
      else (c # takeWhile (\<lambda>x. \<not> isspace x) cs) # split_words (dropWhile (\<lambda>x. \<not> isspace x) cs))"
  by pat_completeness auto
termination
  by (relation "measure length") (auto simp: le_imp_less_Suc length_dropWhile_le)

fun wrap_words :: "nat \<Rightarrow> ustring \<Rightarrow> ustring list \<Rightarrow> ustring list" where
  "wrap_words width line [] = [line]"
| "wrap_words width line (word # rest) =
     (if length line + 1 + length word \<le> width
      then wrap_words width (line @ py '' '' @ word) rest
      else line # wrap_words width word rest)"

fun join_lines :: "ustring list \<Rightarrow> ustring" where
  "join_lines [] = []"
| "join_lines [l] = l"
| "join_lines (l # m # ls) = l @ py ''\<newline>'' @ join_lines (m # ls)"

definition wrap80 :: "ustring \<Rightarrow> ustring" where
  "wrap80 text = (case split_words text of [] \<Rightarrow> [] | word # rest \<Rightarrow> join_lines (wrap_words 80 word rest))"

text \<open>
  An instance of the library for texts in ASCII, used at the concrete inputs below:
  the greedy wrapper, and the case tables of Python on the ASCII code points (\<open>a\<close>..\<open>z\<close>
  are the lower-case letters and \<open>upper\<close> maps them to \<open>A\<close>..\<open>Z\<close>).
\<close>

definition ascii_library :: python_library where
  "ascii_library =
     \<lparr>fill = wrap80,
      islower = (\<lambda>c. 97 \<le> c \<and> c \<le> 122),
      upper = (\<lambda>c. if 97 \<le> c \<and> c \<le> 122 then [c - 32] else [c])\<rparr>"
section \<open>Lemmas about the loop and the pipeline\<close>

lemma chunk_of_simps [simp]:
  "duration (chunk_of d r) = d"
  "export_error (chunk_of d r) = None"
  "recognition (chunk_of d r) = r"
  by (simp_all add: chunk_of_def)

lemma fresh_world_simps [simp]:
  "temp_dir fresh_world = None"
  "written fresh_world = []"
  "status fresh_world = []"
  "open_error fresh_world p = None"
  "mkdir_error fresh_world = None"
  "remove_error fresh_world name = None"
  "rmdir_error fresh_world = None"
  by (simp_all add: fresh_world_def)

lemma process_chunk_ok:
  assumes "export_error c = None"
  shows "\<exists>vars' w'. process_chunk n i c (vars, w) = Inr (vars', w')
           \<and> current_position vars' = current_position vars + int (duration c)
           \<and> segment_texts vars' = segment_texts vars @ (case spoken c of Some t \<Rightarrow> [t] | None \<Rightarrow> [])
           \<and> subtitle_entries vars' = subtitle_entries vars @ entries_from i (current_position vars) [c]
           \<and> written w' = written w \<and> open_error w' = open_error w
           \<and> (temp_dir w' = None \<longleftrightarrow> temp_dir w = None)"
  using assms
  by (cases "recognition c")
     (simp_all add: process_chunk_def chunk_times_def spoken_def update_callback_def Let_def)

lemma process_chunks_ok:
  assumes "\<forall>c\<in>set cs. export_error c = None"
  shows "\<exists>vars' w'. process_chunks n i cs (vars, w) = Inr (vars', w')
           \<and> current_position vars' = current_position vars + int (sum_list (map duration cs))
           \<and> segment_texts vars' = segment_texts vars @ List.map_filter spoken cs
           \<and> subtitle_entries vars' = subtitle_entries vars @ entries_from i (current_position vars) cs
           \<and> written w' = written w \<and> open_error w' = open_error w
           \<and> (temp_dir w' = None \<longleftrightarrow> temp_dir w = None)"
  using assms
proof (induction cs arbitrary: i vars w)
  case Nil
  then show ?case by (simp add: List.map_filter_simps)
next
  case (Cons c cs)
  from Cons.prems have c: "export_error c = None" and cs: "\<forall>c\<in>set cs. export_error c = None"
    by simp_all
  from process_chunk_ok [OF c, of n i vars w] obtain v1 w1 where
    s: "process_chunk n i c (vars, w) = Inr (v1, w1)"
    and p1: "current_position v1 = current_position vars + int (duration c)"
    and t1: "segment_texts v1 = segment_texts vars @ (case spoken c of Some t \<Rightarrow> [t] | None \<Rightarrow> [])"
    and e1: "subtitle_entries v1 = subtitle_entries vars @ entries_from i (current_position vars) [c]"
    and w1: "written w1 = written w" "open_error w1 = open_error w"
            "temp_dir w1 = None \<longleftrightarrow> temp_dir w = None"
    by (elim exE conjE)
  from Cons.IH [OF cs, of "Suc i" v1 w1] obtain v2 w2 where
    r: "process_chunks n (Suc i) cs (v1, w1) = Inr (v2, w2)"
    and p2: "current_position v2 = current_position v1 + int (sum_list (map duration cs))"
    and t2: "segment_texts v2 = segment_texts v1 @ List.map_filter spoken cs"
    and e2: "subtitle_entries v2 = subtitle_entries v1 @ entries_from (Suc i) (current_position v1) cs"
    and w2: "written w2 = written w1" "open_error w2 = open_error w1"
            "temp_dir w2 = None \<longleftrightarrow> temp_dir w1 = None"
    by (elim exE conjE)
  have "process_chunks n i (c # cs) (vars, w) = Inr (v2, w2)"
    using s r by simp
  moreover have "current_position v2 = current_position vars + int (sum_list (map duration (c # cs)))"
    using p1 p2 by simp
  moreover have "segment_texts v2 = segment_texts vars @ List.map_filter spoken (c # cs)"
    using t1 t2 by (simp add: List.map_filter_simps split: option.split)
  moreover have "subtitle_entries v2 = subtitle_entries vars @ entries_from i (current_position vars) (c # cs)"
    using e1 e2 p1 by (simp split: option.split)
  ultimately show ?case using w1 w2 by simp
qed

lemma py_simps [simp]:
  "py [] = []"
  "py (c # cs) = of_char c # py cs"
  "py (a @ b) = py a @ py b"
  by (simp_all add: py_def)

lemma sentinel_srt_literal:
  "sentinel_srt = py ''1\<newline>00:00:00,000 --> 00:00:01,000\<newline>No speech detected in the audio file.\<newline>''"
  by code_simp

lemma update_callback_simps [simp]:
  "temp_dir (update_callback m w) = temp_dir w"
  "written (update_callback m w) = written w"
  "open_error (update_callback m w) = open_error w"
  "mkdir_error (update_callback m w) = mkdir_error w"
  "remove_error (update_callback m w) = remove_error w"
  "rmdir_error (update_callback m w) = rmdir_error w"
  "status (update_callback m w) = status w @ [m]"
  by (simp_all add: update_callback_def)

lemma save_outputs_ok:
  assumes "open_error w output_txt_path = None" "open_error w output_srt_path = None"
  shows "\<exists>w'. save_outputs lib vars output_txt_path output_srt_path w = Inr w'
           \<and> temp_dir w' = temp_dir w
           \<and> written w' = written w @
                (if segment_texts vars = []
                 then [(output_txt_path, sentinel), (output_srt_path, sentinel_srt)]
                 else [(output_txt_path,
                          format_transcription lib (join_space (segment_texts vars))),
                       (output_srt_path, concat (map srt_entry (subtitle_entries vars)))])"
  using assms
  by (simp add: save_outputs_def write_file_def sentinel_def sentinel_srt_literal Let_def
           del: py_simps)

lemma save_outputs_errors:
  "save_outputs lib vars output_txt_path output_srt_path w = Inr w' \<Longrightarrow>
     remove_error w' = remove_error w \<and> rmdir_error w' = rmdir_error w"
  by (auto simp: save_outputs_def write_file_def Let_def simp del: py_simps
           split: if_splits option.splits)

lemma process_chunk_errors:
  "process_chunk n i c (vars, w) = Inr (vars', w') \<Longrightarrow>
     remove_error w' = remove_error w \<and> rmdir_error w' = rmdir_error w"
  by (auto simp: process_chunk_def Let_def split: option.splits recognition.splits if_splits)

lemma process_chunks_errors:
  "process_chunks n i cs (vars, w) = Inr (vars', w') \<Longrightarrow>
     remove_error w' = remove_error w \<and> rmdir_error w' = rmdir_error w"
proof (induction cs arbitrary: i vars w)
  case Nil
  then show ?case by simp
next
  case (Cons c cs)
  from Cons.prems obtain v1 w1 where
    s: "process_chunk n i c (vars, w) = Inr (v1, w1)"
    and r: "process_chunks n (Suc i) cs (v1, w1) = Inr (vars', w')"
    by (auto split: sum.splits)
  from Cons.IH [OF r] process_chunk_errors [OF s] show ?case
    by simp
qed

lemma remove_files_ok:
  assumes "\<forall>name. remove_error w name = None"
  shows "\<exists>d. remove_files names w = Inr (w\<lparr>temp_dir := d\<rparr>)"
  using assms
proof (induction names arbitrary: w)
  case Nil
  have "w = w\<lparr>temp_dir := temp_dir w\<rparr>"
    by simp
  then show ?case
    by (metis remove_files.simps(1))
next
  case (Cons name names)
  let ?w = "w\<lparr>temp_dir := map_option (removeAll name) (temp_dir w)\<rparr>"
  have "\<forall>name. remove_error ?w name = None"
    using Cons.prems by simp
  from Cons.IH [OF this] obtain d where "remove_files names ?w = Inr (?w\<lparr>temp_dir := d\<rparr>)"
    by (elim exE)
  then have "remove_files (name # names) w = Inr (w\<lparr>temp_dir := d\<rparr>)"
    using Cons.prems by simp
  then show ?case
    by (rule exI)
qed

lemma clean_up_ok:
  assumes "temp_dir w \<noteq> None" "\<forall>name. remove_error w name = None" "rmdir_error w = None"
  shows "clean_up w = Inr (w\<lparr>temp_dir := None\<rparr>)"
proof -
  from assms(1) obtain names where f: "temp_dir w = Some names"
    by auto
  from remove_files_ok [OF assms(2), of names] obtain d where
    "remove_files names w = Inr (w\<lparr>temp_dir := d\<rparr>)"
    by (elim exE)
  with f assms(3) show ?thesis
    by (simp add: clean_up_def)
qed

lemma initial_vars_simps [simp]:
  "current_position initial_vars = 0"
  "segment_texts initial_vars = []"
  "subtitle_entries initial_vars = []"
  by (simp_all add: initial_vars_def)

lemma pipeline_ok:
  assumes ex: "\<forall>c\<in>set cs. export_error c = None"
    and ot: "open_error w output_txt_path = None" and os: "open_error w output_srt_path = None"
    and mk: "temp_dir w = None \<longrightarrow> mkdir_error w = None"
    and rm: "\<forall>name. remove_error w name = None" and rd: "rmdir_error w = None"
  shows "\<exists>w'. transcribe_mp3_to_text_and_srt lib (Splits cs) mp3_path output_txt_path
                 output_srt_path language content_type w = (True, w')
           \<and> temp_dir w' = None
           \<and> written w' = written w @
                (if List.map_filter spoken cs = []
                 then [(output_txt_path, sentinel), (output_srt_path, sentinel_srt)]
                 else [(output_txt_path,
                          format_transcription lib (join_space (List.map_filter spoken cs))),
                       (output_srt_path, concat (map srt_entry (entries_from 0 0 cs)))])"
proof -
  define w1 where "w1 = update_callback (py ''Loading audio file...'')
                     (update_callback (py ''Content type: '' @ content_type)
                       (update_callback (py ''Selected language: '' @ language)
                         (update_callback (py ''Processing MP3 file: '' @ mp3_path) w)))"
  define w2 where "w2 = update_callback
                       (py ''Splitting audio on silence (optimized for '' @ content_type @
                        py '')...'') w1"
  define w3 where "w3 = (if temp_dir w2 = None then w2\<lparr>temp_dir := Some []\<rparr> else w2)"
  define w4 where "w4 = update_callback
                       (py (''Processing '' @ str_nat (length cs) @ '' audio segments...'')) w3"
  have w2: "temp_dir w2 = temp_dir w" "mkdir_error w2 = mkdir_error w"
    by (simp_all add: w2_def w1_def)
  have mkd: "make_temp_dir w2 = Inr w3"
    using mk w2 by (auto simp: make_temp_dir_def w3_def)
  have w4: "written w4 = written w" "open_error w4 = open_error w"
           "remove_error w4 = remove_error w" "rmdir_error w4 = rmdir_error w"
           "temp_dir w4 \<noteq> None"
    by (simp_all add: w4_def w3_def w2_def w1_def)
  from process_chunks_ok [OF ex, of "length cs" 0 initial_vars w4] obtain v5 w5 where
    run: "process_chunks (length cs) 0 cs (initial_vars, w4) = Inr (v5, w5)"
    and "current_position v5 = current_position initial_vars + int (sum_list (map duration cs))"
    and t5': "segment_texts v5 = segment_texts initial_vars @ List.map_filter spoken cs"
    and e5': "subtitle_entries v5 =
                subtitle_entries initial_vars @ entries_from 0 (current_position initial_vars) cs"
    and w5: "written w5 = written w4" "open_error w5 = open_error w4"
    and d5: "temp_dir w5 = None \<longleftrightarrow> temp_dir w4 = None"
    by (elim exE conjE)
  have t5: "segment_texts v5 = List.map_filter spoken cs"
    and e5: "subtitle_entries v5 = entries_from 0 0 cs"
    using t5' e5' by simp_all
  have o5: "open_error w5 output_txt_path = None" "open_error w5 output_srt_path = None"
    using ot os w4 w5 by simp_all
  from save_outputs_ok [OF o5, of lib v5] obtain w6 where
    save: "save_outputs lib v5 output_txt_path output_srt_path w5 = Inr w6"
    and d6: "temp_dir w6 = temp_dir w5"
    and w6: "written w6 = written w5 @
                (if segment_texts v5 = []
                 then [(output_txt_path, sentinel), (output_srt_path, sentinel_srt)]
                 else [(output_txt_path, format_transcription lib (join_space (segment_texts v5))),
                       (output_srt_path, concat (map srt_entry (subtitle_entries v5)))])"
    by (elim exE conjE)
  have e6: "remove_error w6 = remove_error w" "rmdir_error w6 = rmdir_error w"
    using save_outputs_errors [OF save] process_chunks_errors [OF run] w4 by simp_all
  have cl: "clean_up w6 = Inr (w6\<lparr>temp_dir := None\<rparr>)"
    using d6 d5 w4(5) e6 rm rd by (intro clean_up_ok) simp_all
  have body: "pipeline_body lib (Splits cs) mp3_path output_txt_path output_srt_path
                language content_type w
          = Inr (update_callback (py ''Transcription complete!'') (w6\<lparr>temp_dir := None\<rparr>))"
    using run save cl mkd
    unfolding pipeline_body_def Let_def w4_def w2_def w1_def
    by (simp only: audio.case sum.case fst_conv snd_conv)
  show ?thesis
    unfolding transcribe_mp3_to_text_and_srt_def body
    using w6 w5 w4 t5 e5 by simp
qed

lemma map_filter_append: "List.map_filter f (xs @ ys) = List.map_filter f xs @ List.map_filter f ys"
  by (simp add: List.map_filter_def)

lemma map_filter_map_comp: "List.map_filter f (map g xs) = List.map_filter (f \<circ> g) xs"
  by (simp add: List.map_filter_def filter_map comp_def)

lemma map_filter_None: "(\<forall>x\<in>set xs. f x = None) \<Longrightarrow> List.map_filter f xs = []"
  by (simp add: List.map_filter_def)

lemma entries_from_closed:
  "entries_from i p cs =
     List.map_filter
       (\<lambda>j. map_option (\<lambda>text. \<lparr>e_index = i + j + 1,
                                 e_start = p + int (sum_list (map duration (take j cs))),
                                 e_end = p + int (sum_list (map duration (take (Suc j) cs))),
                                 e_text = text\<rparr>)
                       (spoken (cs ! j)))
       [0..<length cs]"
proof (induction cs arbitrary: i p)
  case Nil
  show ?case by (simp add: List.map_filter_simps)
next
  case (Cons c cs)
  have upt: "[0..<length (c # cs)] = 0 # map Suc [0..<length cs]"
    by (simp add: upt_conv_Cons map_Suc_upt del: upt_Suc)
  show ?case
    unfolding upt
    by (simp add: List.map_filter_simps map_filter_map_comp comp_def Cons.IH algebra_simps
             split: option.split)
qed

lemma entries_from_expected: "entries_from 0 0 cs = List.map_filter (expected_entry cs) [0..<length cs]"
  by (simp add: entries_from_closed expected_entry_def [abs_def])

lemma entries_from_append:
  "entries_from i p (xs @ ys) =
     entries_from i p xs @ entries_from (i + length xs) (p + int (sum_list (map duration xs))) ys"
  by (induction xs arbitrary: i p) (simp_all add: algebra_simps)

lemma entries_from_index:
  "e \<in> set (entries_from i p cs) \<Longrightarrow> i < e_index e \<and> e_index e \<le> i + length cs"
proof (induction cs arbitrary: i p)
  case Nil
  then show ?case by simp
next
  case (Cons c cs)
  then show ?case by (fastforce split: option.splits)
qed

lemma spoken_update_simps [simp]:
  "spoken (c\<lparr>recognition := Recognized []\<rparr>) = None"
  "spoken (c\<lparr>recognition := UnknownValueError\<rparr>) = None"
  "spoken (c\<lparr>recognition := OtherError e\<rparr>) = None"
  "text \<noteq> [] \<Longrightarrow> spoken (c\<lparr>recognition := Recognized text\<rparr>) = Some text"
  by (simp_all add: spoken_def)

lemma filter_entries_from_above:
  "k \<le> i \<Longrightarrow> filter (\<lambda>e. e_index e \<noteq> k) (entries_from i p cs) = entries_from i p cs"
  by (rule filter_True) (auto dest: entries_from_index)

lemma filter_entries_from_below:
  "i + length cs < k \<Longrightarrow> filter (\<lambda>e. e_index e \<noteq> k) (entries_from i p cs) = entries_from i p cs"
  by (rule filter_True) (auto dest: entries_from_index)

lemma process_chunks_result:
  assumes "\<forall>c\<in>set cs. export_error c = None"
  obtains vars w' where "process_chunks n 0 cs (initial_vars, w) = Inr (vars, w')"
    and "current_position vars = int (sum_list (map duration cs))"
    and "segment_texts vars = List.map_filter spoken cs"
    and "subtitle_entries vars = entries_from 0 0 cs"
proof -
  from process_chunks_ok [OF assms, of n 0 initial_vars w] obtain v w' where
    "process_chunks n 0 cs (initial_vars, w) = Inr (v, w')"
    and "current_position v = current_position initial_vars + int (sum_list (map duration cs))"
    and "segment_texts v = segment_texts initial_vars @ List.map_filter spoken cs"
    and "subtitle_entries v =
           subtitle_entries initial_vars @ entries_from 0 (current_position initial_vars) cs"
    and "written w' = written w" "open_error w' = open_error w"
    and "temp_dir w' = None \<longleftrightarrow> temp_dir w = None"
    by (elim exE conjE)
  then show thesis
    using that [of v w'] by simp
qed

lemma paragraph_loop_append:
  "paragraph_loop i (xs @ ys) st = paragraph_loop (i + length xs) ys (paragraph_loop i xs st)"
  by (induction xs arbitrary: i st) simp_all

lemma content_append [simp]: "content (xs @ ys) = content xs @ content ys"
  by (simp add: content_def)

lemma content_Nil [simp]: "content [] = []"
  by (simp add: content_def)

lemma content_Cons: "content (c # cs) = (if isspace c then content cs else c # content cs)"
  by (simp add: content_def)

lemma content_dropWhile [simp]: "content (dropWhile isspace s) = content s"
  by (induction s) (simp_all add: content_Cons)

lemma content_rev: "content (rev s) = rev (content s)"
  by (simp add: content_def rev_filter)

lemma content_strip [simp]: "content (strip s) = content s"
proof -
  have "content (strip s) = rev (content (dropWhile isspace (rev (dropWhile isspace s))))"
    by (simp add: strip_def content_rev)
  also have "\<dots> = rev (content (rev (dropWhile isspace s)))"
    by simp
  also have "\<dots> = content s"
    by (simp add: content_rev)
  finally show ?thesis .
qed

lemma isspace_space [simp]: "isspace 32" and isspace_newline [simp]: "isspace 10"
  by (simp_all add: isspace_def)

lemma is_terminal_iff: "is_terminal c \<longleftrightarrow> c = 46 \<or> c = 33 \<or> c = 63"
  by (auto simp: is_terminal_def)

lemma terminal_not_space: "is_terminal c \<Longrightarrow> \<not> isspace c"
  by (auto simp: is_terminal_iff isspace_def)

lemma re_split_not_Nil [simp]: "re_split s \<noteq> []"
  by (induction s rule: re_split.induct) (auto split: list.split)

lemma content_re_split: "concat (map content (re_split s)) = content s"
proof (induction s rule: re_split.induct)
  case 1
  show ?case by simp
next
  case (2 c cs)
  show ?case
  proof (cases "is_terminal c \<and> cs \<noteq> [] \<and> isspace (hd cs)")
    case True
    then show ?thesis
      using "2.IH"(1) by (simp add: content_Cons terminal_not_space)
  next
    case False
    obtain p ps where ps: "re_split cs = p # ps"
      using re_split_not_Nil [of cs] by (cases "re_split cs") auto
    from False ps "2.IH"(2) have "content p @ concat (map content ps) = content cs"
      by simp
    with False ps show ?thesis
      by (auto simp: content_Cons)
  qed
qed

lemma content_join_space: "content (join_space ss) = concat (map content ss)"
  by (induction ss rule: join_space.induct) (simp_all add: content_Cons)

lemma content_paragraph_step:
  "content (fst (paragraph_step i s st)) @ content (snd (paragraph_step i s st))
     = content (fst st) @ content (snd st) @ content s"
  by (simp add: paragraph_step_def Let_def content_Cons)

lemma content_paragraph_loop:
  "content (fst (paragraph_loop i ss st)) @ content (snd (paragraph_loop i ss st))
     = content (fst st) @ content (snd st) @ concat (map content ss)"
proof (induction ss arbitrary: i st)
  case Nil
  show ?case by simp
next
  case (Cons s ss)
  show ?case
    using Cons.IH [of "Suc i" "paragraph_step i s st"] content_paragraph_step [of i s st]
    by simp
qed

lemma content_paragraph_finish:
  "content (paragraph_finish st) = content (fst st) @ content (snd st)"
  by (simp add: paragraph_finish_def)

lemma content_paragraphs:
  "content (paragraph_finish (paragraph_loop 0 ss ([], []))) = concat (map content ss)"
  using content_paragraph_loop [of 0 ss "([], [])"] by (simp add: content_paragraph_finish)

lemma capitalize_first_id: "\<not> starts_lower lib s \<Longrightarrow> capitalize_first lib s = s"
  by (cases s) (simp_all add: starts_lower_def)

lemma re_split_head:
  "t \<noteq> [] \<Longrightarrow> \<exists>p ps. re_split t = p # ps \<and> p \<noteq> [] \<and> hd p = hd t"
  by (cases t) (auto split: list.split)

lemma starts_lower_first:
  assumes "\<forall>s\<in>set (re_split t). \<not> starts_lower lib s"
  shows "\<not> starts_lower lib t"
proof (cases t)
  case Nil
  then show ?thesis by (simp add: starts_lower_def)
next
  case (Cons c cs)
  then obtain p ps where "re_split t = p # ps" "p \<noteq> []" "hd p = hd t"
    using re_split_head [of t] by auto
  with assms Cons show ?thesis
    by (cases p) (auto simp: starts_lower_def)
qed

lemma content_split_words: "concat (map content (split_words s)) = content s"
proof (induction s rule: split_words.induct)
  case 1
  show ?case by simp
next
  case (2 c cs)
  have "content cs = content (takeWhile (\<lambda>x. \<not> isspace x) cs) @ content (dropWhile (\<lambda>x. \<not> isspace x) cs)"
    using content_append [of "takeWhile (\<lambda>x. \<not> isspace x) cs" "dropWhile (\<lambda>x. \<not> isspace x) cs"]
    by simp
  with 2 show ?case
    by (simp add: content_Cons)
qed

lemma content_join_lines: "content (join_lines ls) = concat (map content ls)"
  by (induction ls rule: join_lines.induct) (simp_all add: content_Cons)

lemma content_wrap_words:
  "concat (map content (wrap_words width line ws)) = content line @ concat (map content ws)"
  by (induction ws arbitrary: line) (simp_all add: content_Cons)

lemma content_wrap80: "content (wrap80 t) = content t"
proof (cases "split_words t")
  case Nil
  then show ?thesis
    using content_split_words [of t] by (simp add: wrap80_def)
next
  case (Cons word rest)
  then show ?thesis
    using content_split_words [of t]
    by (simp add: wrap80_def content_join_lines content_wrap_words)
qed

lemma ends_terminal_Nil [simp]: "\<not> ends_terminal []"
  by (simp add: ends_terminal_def)

lemma ends_terminal_append:
  "ends_terminal (xs @ ys) = (if \<forall>c\<in>set ys. isspace c then ends_terminal xs else ends_terminal ys)"
proof (cases "\<forall>c\<in>set ys. isspace c")
  case True
  then show ?thesis
    by (simp add: ends_terminal_def dropWhile_append)
next
  case False
  then obtain c cs where "dropWhile isspace (rev ys) = c # cs"
    by (cases "dropWhile isspace (rev ys)") (auto simp: dropWhile_eq_Nil_conv)
  with False show ?thesis
    by (auto simp: ends_terminal_def dropWhile_append)
qed

lemma ends_terminal_strip:
  assumes "strip p \<noteq> []"
  shows "ends_terminal p = is_terminal (last (strip p))"
proof -
  let ?q = "dropWhile isspace p"
  from assms have ne: "dropWhile isspace (rev ?q) \<noteq> []"
    by (simp add: strip_def)
  then have nsp: "\<not> (\<forall>c\<in>set ?q. isspace c)"
    by (simp add: dropWhile_eq_Nil_conv)
  have "ends_terminal p = ends_terminal (takeWhile isspace p @ ?q)"
    by simp
  also have "\<dots> = ends_terminal ?q"
    using nsp by (simp only: ends_terminal_append if_False)
  also have "\<dots> = is_terminal (hd (dropWhile isspace (rev ?q)))"
    using ne by (cases "dropWhile isspace (rev ?q)") (simp_all add: ends_terminal_def)
  also have "hd (dropWhile isspace (rev ?q)) = last (strip p)"
    using ne by (simp add: strip_def last_rev)
  finally show ?thesis .
qed

lemma clean_step: "clean st \<Longrightarrow> clean (paragraph_step i s st)"
  by (auto simp: clean_def paragraph_step_def Let_def ends_terminal_append)

lemma clean_loop: "clean st \<Longrightarrow> clean (paragraph_loop i ss st)"
  by (induction ss arbitrary: i st) (simp_all add: clean_step)

lemma sentinel_facts:
  "sentinel \<noteq> []" "10 \<notin> set sentinel" "is_terminal (last sentinel)"
  by (simp_all add: sentinel_def is_terminal_iff)

lemma paragraphs_not_sentinel: "paragraph_finish (paragraph_loop 0 ss ([], [])) \<noteq> sentinel"
proof
  let ?st = "paragraph_loop 0 ss ([], [])"
  assume eq: "paragraph_finish ?st = sentinel"
  have "clean ([], [])"
    by (simp add: clean_def)
  then have cl: "clean ?st"
    by (rule clean_loop)
  show False
  proof (cases "fst ?st = []")
    case True
    with eq have s: "strip (snd ?st) = sentinel"
      using sentinel_facts(1) by (simp add: paragraph_finish_def split: if_splits)
    then have "ends_terminal (snd ?st)"
      using ends_terminal_strip [of "snd ?st"] sentinel_facts by simp
    with cl show False
      by (simp add: clean_def)
  next
    case False
    with cl have "10 \<in> set (fst ?st)"
      by (simp add: clean_def)
    then have "10 \<in> set (paragraph_finish ?st)"
      by (simp add: paragraph_finish_def)
    with eq sentinel_facts(2) show False
      by simp
  qed
qed

lemma format_transcription_not_sentinel: "format_transcription lib text \<noteq> sentinel"
  using paragraphs_not_sentinel sentinel_facts(1)
  by (simp add: format_transcription_def Let_def)

lemma paragraph_loop_all_terminal:
  "\<forall>s\<in>set ss. ends_terminal s \<Longrightarrow>
     paragraph_loop i ss (ft, []) = (ft @ concat (map (\<lambda>s. strip (s @ py '' '') @ py ''\<newline>\<newline>'') ss), [])"
  by (induction ss arbitrary: i ft) (simp_all add: paragraph_step_def Let_def)


lemma content_format_transcription:
  assumes "\<forall>t. content (fill lib t) = content t"
  shows "content (format_transcription lib text) = content (capitalize_sentences lib text)"
proof (cases "text = []")
  case True
  then show ?thesis
    by (simp add: format_transcription_def capitalize_sentences_def strip_def)
next
  case False
  let ?t = "capitalize_sentences lib text"
  have "format_transcription lib text
          = paragraph_finish (paragraph_loop 0 (re_split (fill lib ?t)) ([], []))"
    using False by (simp add: format_transcription_def Let_def capitalize_sentences_def)
  then have "content (format_transcription lib text)
          = concat (map content (re_split (fill lib ?t)))"
    by (simp add: content_paragraphs)
  also have "\<dots> = content (fill lib ?t)"
    by (rule content_re_split)
  also have "\<dots> = content ?t"
    using assms by simp
  finally show ?thesis .
qed

lemma content_capitalize_sentences:
  assumes "capitalized lib text"
  shows "content (capitalize_sentences lib text) = content text"
proof -
  let ?t = "strip text"
  have sent: "\<forall>s\<in>set (re_split ?t). \<not> starts_lower lib s"
    using assms by (simp add: capitalized_def)
  have first: "capitalize_first lib ?t = ?t"
    using starts_lower_first [OF sent] by (rule capitalize_first_id)
  have each: "map (capitalize_first lib) (re_split ?t) = re_split ?t"
    using sent by (simp add: map_idI capitalize_first_id)
  show ?thesis
    by (simp add: capitalize_sentences_def first each content_join_space content_re_split)
qed

lemma content_wrap80_all: "\<forall>t. content (fill ascii_library t) = content t"
  by (simp add: ascii_library_def content_wrap80)

text \<open>
  The exceptions of the directory reach the handler of line 227 like any other: with
  an entry that cannot be removed (a subdirectory), both output files are written and
  the run still returns \<open>False\<close>; when the directory cannot be created, nothing is
  written.
\<close>

lemma entry_not_removable_aborts:
  "fst (transcribe_mp3_to_text_and_srt ascii_library
          (Splits [chunk_of 1000 UnknownValueError])
          (py ''a.mp3'') (py ''a.txt'') (py ''a.srt'') (py ''en-US'') (py ''talk'')
          (fresh_world\<lparr>temp_dir := Some [py ''sub''],
                        remove_error := (\<lambda>name. if name = py ''sub''
                                                  then Some (py ''Is a directory'')
                                                  else None)\<rparr>)) = False
   \<and> map fst (written (snd (transcribe_mp3_to_text_and_srt ascii_library
          (Splits [chunk_of 1000 UnknownValueError])
          (py ''a.mp3'') (py ''a.txt'') (py ''a.srt'') (py ''en-US'') (py ''talk'')
          (fresh_world\<lparr>temp_dir := Some [py ''sub''],
                        remove_error := (\<lambda>name. if name = py ''sub''
                                                  then Some (py ''Is a directory'')
                                                  else None)\<rparr>))))
       = [py ''a.txt'', py ''a.srt'']"
  by code_simp

lemma mkdir_failure_aborts:
  "fst (transcribe_mp3_to_text_and_srt ascii_library
          (Splits [chunk_of 1000 UnknownValueError])
          (py ''a.mp3'') (py ''a.txt'') (py ''a.srt'') (py ''en-US'') (py ''talk'')
          (fresh_world\<lparr>mkdir_error := Some (py ''Permission denied'')\<rparr>)) = False
   \<and> written (snd (transcribe_mp3_to_text_and_srt ascii_library
          (Splits [chunk_of 1000 UnknownValueError])
          (py ''a.mp3'') (py ''a.txt'') (py ''a.srt'') (py ''en-US'') (py ''talk'')
          (fresh_world\<lparr>mkdir_error := Some (py ''Permission denied'')\<rparr>))) = []"
  by code_simp

section \<open>Time formatting\<close>

text \<open>
  Claim C8. Time formatting gives zero-padded \<open>HH:MM:SS,mmm\<close> strings: 3661000 ms is
  formatted as \<open>01:01:01,000\<close> and 500 ms as \<open>00:00:00,500\<close>.
\<close>

theorem format_time_examples:
  "format_time 3661000 = ''01:01:01,000'' \<and> format_time 500 = ''00:00:00,500''"
  by code_simp

text \<open>
  Claim C5, as stated, says that the hours field is the number of hours reduced modulo
  24. The code never reduces the hours: 90000000 ms (25 hours) is formatted as
  \<open>25:00:00,000\<close>, whose hours field is not that of 25 mod 24 = 1.
\<close>

theorem format_time_hours_not_mod_24:
  "format_time 90000000 = ''25:00:00,000'' \<and>
   take 2 (format_time 90000000) \<noteq> fmt_d 2 ((90000000 div 3600000) mod 24)"
  by code_simp

text \<open>
  Claim C5, amended. For every millisecond value, \<open>format_time\<close> prints the
  milliseconds modulo 1000, the seconds modulo 60, the minutes modulo 60 and the total
  number of whole hours, which is not reduced modulo 24 (the successive \<open>divmod\<close>s
  stop at the hours); each field is zero-padded, to three digits for the milliseconds
  and to at least two for the others.
\<close>

theorem format_time_fields:
  "format_time ms =
     fmt_d 2 (ms div 3600000) @ '':'' @ fmt_d 2 (ms div 60000 mod 60) @ '':'' @
     fmt_d 2 (ms div 1000 mod 60) @ '','' @ fmt_d 3 (ms mod 1000)"
proof -
  have m: "ms div 1000 div 60 = ms div 60000"
    using zdiv_zmult2_eq [of 60 ms 1000] by simp
  have h: "ms div 60000 div 60 = ms div 3600000"
    using zdiv_zmult2_eq [of 60 ms 60000] by simp
  show ?thesis
    by (simp add: format_time_def Let_def m h)
qed

section \<open>Transient storage\<close>

text \<open>
  Claim C4 says that the directory \<open>temp_audio_chunks\<close> and the chunk files in it are
  removed on every exit path. The clean-up (lines 218-221) stands inside the \<open>try\<close>
  block, so it is skipped whenever an exception reaches the handler of line 227. Here
  the audio has one chunk, which is exported and recognised, and the transcript file
  cannot be opened for writing: the pipeline returns \<open>False\<close> and the directory is
  still there, with \<open>chunk0.wav\<close> in it.
\<close>

theorem temp_dir_left_behind_on_abort:
  "fst (transcribe_mp3_to_text_and_srt ascii_library
          (Splits [chunk_of 1000 (Recognized (py ''hi''))])
          (py ''a.mp3'') (py ''/nonexistent/a.txt'') (py ''a.srt'') (py ''en-US'') (py ''talk'')
          (fresh_world\<lparr>open_error := (\<lambda>path. if path = py ''/nonexistent/a.txt''
                                               then Some (py ''No such file or directory'')
                                               else None)\<rparr>)) = False
   \<and> temp_dir (snd (transcribe_mp3_to_text_and_srt ascii_library
          (Splits [chunk_of 1000 (Recognized (py ''hi''))])
          (py ''a.mp3'') (py ''/nonexistent/a.txt'') (py ''a.srt'') (py ''en-US'') (py ''talk'')
          (fresh_world\<lparr>open_error := (\<lambda>path. if path = py ''/nonexistent/a.txt''
                                               then Some (py ''No such file or directory'')
                                               else None)\<rparr>))) = Some [py ''chunk0.wav'']"
  by code_simp

section \<open>Runs without recognised text\<close>



section \<open>Timing of the chunks\<close>

text \<open>
  Claim C2. For every sequence of chunk durations (the loop reaching every chunk, that
  is, no export raising), the loop computes for chunk \<open>i\<close> the interval from the sum of
  the durations before \<open>i\<close> to the sum of the durations up to and including \<open>i\<close>.
  The first interval starts at 0, each interval starts where the one before it ended,
  and the cursor ends at the sum of all durations (0 for no chunk at all).
\<close>

theorem timing_is_cumulative:
  assumes "\<forall>c\<in>set cs. export_error c = None"
  shows "(\<exists>vars w'. process_chunks (length cs) 0 cs (initial_vars, w) = Inr (vars, w')
            \<and> current_position vars = int (sum_list (map duration cs)))
       \<and> (\<forall>i<length cs.
             interval_of w cs i =
               Some (int (sum_list (map duration (take i cs))),
                     int (sum_list (map duration (take (Suc i) cs)))))
       \<and> (0 < length cs \<longrightarrow> (\<exists>e. interval_of w cs 0 = Some (0, e)))
       \<and> (\<forall>i. Suc i < length cs \<longrightarrow>
             (\<exists>s m e. interval_of w cs i = Some (s, m) \<and> interval_of w cs (Suc i) = Some (m, e)))"
proof -
  have iv: "interval_of w cs i =
               Some (int (sum_list (map duration (take i cs))),
                     int (sum_list (map duration (take (Suc i) cs))))"
    if i: "i < length cs" for i
  proof -
    have ex: "\<forall>c\<in>set (take i cs). export_error c = None"
      using assms by (meson in_set_takeD)
    from process_chunks_ok [OF ex, of "length cs" 0 initial_vars w] obtain v w' where
      run: "process_chunks (length cs) 0 (take i cs) (initial_vars, w) = Inr (v, w')"
      and pos: "current_position v =
                  current_position initial_vars + int (sum_list (map duration (take i cs)))"
      and "segment_texts v = segment_texts initial_vars @ List.map_filter spoken (take i cs)"
      and "subtitle_entries v =
             subtitle_entries initial_vars @
             entries_from 0 (current_position initial_vars) (take i cs)"
      and "written w' = written w" "open_error w' = open_error w"
      and "temp_dir w' = None \<longleftrightarrow> temp_dir w = None"
      by (elim exE conjE)
    show ?thesis
      using run pos i
      by (simp add: interval_of_def chunk_times_def take_Suc_conv_app_nth)
  qed
  from process_chunks_ok [OF assms, of "length cs" 0 initial_vars w] obtain v w' where
    run: "process_chunks (length cs) 0 cs (initial_vars, w) = Inr (v, w')"
    and pos: "current_position v =
                current_position initial_vars + int (sum_list (map duration cs))"
    and "segment_texts v = segment_texts initial_vars @ List.map_filter spoken cs"
    and "subtitle_entries v =
           subtitle_entries initial_vars @ entries_from 0 (current_position initial_vars) cs"
    and "written w' = written w" "open_error w' = open_error w"
    and "temp_dir w' = None \<longleftrightarrow> temp_dir w = None"
    by (elim exE conjE)
  have final: "\<exists>vars w'. process_chunks (length cs) 0 cs (initial_vars, w) = Inr (vars, w')
            \<and> current_position vars = int (sum_list (map duration cs))"
    using run pos by (intro exI [of _ v] exI [of _ w']) simp
  have first: "0 < length cs \<longrightarrow> (\<exists>e. interval_of w cs 0 = Some (0, e))"
    using iv [of 0] by simp
  have adjacent: "\<forall>i. Suc i < length cs \<longrightarrow>
             (\<exists>s m e. interval_of w cs i = Some (s, m) \<and> interval_of w cs (Suc i) = Some (m, e))"
    using iv by simp
  from final iv first adjacent show ?thesis by blast
qed

text \<open>An instance: durations 1000, 2000 and 1500 ms.\<close>

theorem timing_is_cumulative_witness:
  "interval_of fresh_world
     [chunk_of 1000 (Recognized (py ''a'')), chunk_of 2000 UnknownValueError,
      chunk_of 1500 (Recognized (py ''b''))] 0 = Some (0, 1000)
   \<and> interval_of fresh_world
     [chunk_of 1000 (Recognized (py ''a'')), chunk_of 2000 UnknownValueError,
      chunk_of 1500 (Recognized (py ''b''))] 1 = Some (1000, 3000)
   \<and> interval_of fresh_world
     [chunk_of 1000 (Recognized (py ''a'')), chunk_of 2000 UnknownValueError,
      chunk_of 1500 (Recognized (py ''b''))] 2 = Some (3000, 4500)"
proof -
  let ?cs = "[chunk_of 1000 (Recognized (py ''a'')), chunk_of 2000 UnknownValueError,
              chunk_of 1500 (Recognized (py ''b''))]"
  have ex: "\<forall>c\<in>set ?cs. export_error c = None"
    by simp
  from timing_is_cumulative [OF ex, of fresh_world]
  have iv: "\<forall>i<length ?cs.
             interval_of fresh_world ?cs i =
               Some (int (sum_list (map duration (take i ?cs))),
                     int (sum_list (map duration (take (Suc i) ?cs))))"
    by (elim conjE)
  from iv [rule_format, of 0] iv [rule_format, of 1] iv [rule_format, of 2]
  show ?thesis
    by (simp add: numeral_2_eq_2)
qed

section \<open>Failures of single chunks\<close>



text \<open>
  Claim C10. A chunk on which the recogniser returns the empty string adds no text and
  no subtitle entry: the run gives the same texts and entries as when the recogniser
  raises \<open>UnknownValueError\<close> on that chunk. Its duration still advances the cursor:
  the cursor ends at the sum of all durations, as it does when the chunk is recognised
  with a text, and the entries are those of that run without the chunk's own entry, so
  the ordinals and intervals of all other chunks are unchanged.
\<close>

theorem empty_text_dropped_cursor_advances:
  assumes "\<forall>x\<in>set (pre @ c # post). export_error x = None"
  shows "\<exists>v0 w0 vu wu vt wt.
      process_chunks n 0 (pre @ c\<lparr>recognition := Recognized []\<rparr> # post) (initial_vars, w)
        = Inr (v0, w0)
    \<and> process_chunks n 0 (pre @ c\<lparr>recognition := UnknownValueError\<rparr> # post) (initial_vars, w)
        = Inr (vu, wu)
    \<and> process_chunks n 0 (pre @ c\<lparr>recognition := Recognized text\<rparr> # post) (initial_vars, w)
        = Inr (vt, wt)
    \<and> segment_texts v0 = List.map_filter spoken pre @ List.map_filter spoken post
    \<and> segment_texts v0 = segment_texts vu
    \<and> subtitle_entries v0 = subtitle_entries vu
    \<and> current_position v0 = int (sum_list (map duration (pre @ c # post)))
    \<and> current_position v0 = current_position vt
    \<and> subtitle_entries v0 = filter (\<lambda>e. e_index e \<noteq> length pre + 1) (subtitle_entries vt)"
proof -
  have ex: "\<forall>x\<in>set (pre @ c\<lparr>recognition := r\<rparr> # post). export_error x = None" for r
    using assms by simp
  obtain v0 w0 where
    r0: "process_chunks n 0 (pre @ c\<lparr>recognition := Recognized []\<rparr> # post) (initial_vars, w)
           = Inr (v0, w0)"
    and p0: "current_position v0
               = int (sum_list (map duration (pre @ c\<lparr>recognition := Recognized []\<rparr> # post)))"
    and t0: "segment_texts v0
               = List.map_filter spoken (pre @ c\<lparr>recognition := Recognized []\<rparr> # post)"
    and e0: "subtitle_entries v0
               = entries_from 0 0 (pre @ c\<lparr>recognition := Recognized []\<rparr> # post)"
    using process_chunks_result [OF ex] by blast
  obtain vu wu where
    ru: "process_chunks n 0 (pre @ c\<lparr>recognition := UnknownValueError\<rparr> # post) (initial_vars, w)
           = Inr (vu, wu)"
    and tu: "segment_texts vu
               = List.map_filter spoken (pre @ c\<lparr>recognition := UnknownValueError\<rparr> # post)"
    and eu: "subtitle_entries vu
               = entries_from 0 0 (pre @ c\<lparr>recognition := UnknownValueError\<rparr> # post)"
    using process_chunks_result [OF ex] by metis
  obtain vt wt where
    rt: "process_chunks n 0 (pre @ c\<lparr>recognition := Recognized text\<rparr> # post) (initial_vars, w)
           = Inr (vt, wt)"
    and pt: "current_position vt
               = int (sum_list (map duration (pre @ c\<lparr>recognition := Recognized text\<rparr> # post)))"
    and et: "subtitle_entries vt
               = entries_from 0 0 (pre @ c\<lparr>recognition := Recognized text\<rparr> # post)"
    using process_chunks_result [OF ex] by metis
  have texts: "segment_texts v0 = List.map_filter spoken pre @ List.map_filter spoken post"
    using t0 by (simp add: map_filter_append List.map_filter_simps)
  have same_texts: "segment_texts v0 = segment_texts vu"
    using t0 tu by (simp add: map_filter_append List.map_filter_simps)
  have same_entries: "subtitle_entries v0 = subtitle_entries vu"
    using e0 eu by (simp add: entries_from_append)
  have cursor: "current_position v0 = int (sum_list (map duration (pre @ c # post)))"
    using p0 by simp
  have same_cursor: "current_position v0 = current_position vt"
    using p0 pt by simp
  have later: "subtitle_entries v0
                 = filter (\<lambda>e. e_index e \<noteq> length pre + 1) (subtitle_entries vt)"
    using e0 et
    by (simp add: entries_from_append filter_entries_from_above filter_entries_from_below
             split: option.split)
  from r0 ru rt texts same_texts same_entries cursor same_cursor later show ?thesis
    by (intro exI [of _ v0] exI [of _ w0] exI [of _ vu] exI [of _ wu] exI [of _ vt]
              exI [of _ wt] conjI)
qed

text \<open>An instance: the second of three chunks is recognised as the empty string.\<close>

theorem empty_text_dropped_cursor_advances_witness:
  "\<exists>v0 w0. process_chunks 3 0
              [chunk_of 1000 (Recognized (py ''a'')), chunk_of 2000 (Recognized []),
               chunk_of 1500 (Recognized (py ''b''))] (initial_vars, fresh_world) = Inr (v0, w0)
     \<and> segment_texts v0 = [py ''a'', py ''b'']
     \<and> current_position v0 = 4500"
proof -
  have ex: "\<forall>x\<in>set ([chunk_of 1000 (Recognized (py ''a''))] @ chunk_of 2000 (Recognized [])
                        # [chunk_of 1500 (Recognized (py ''b''))]). export_error x = None"
    by simp
  have upd: "(chunk_of 2000 (Recognized []))\<lparr>recognition := Recognized []\<rparr>
               = chunk_of 2000 (Recognized [])"
    by (simp add: chunk_of_def)
  from empty_text_dropped_cursor_advances [OF ex, of 3 fresh_world "py ''x''"]
  obtain v0 w0 where
    "process_chunks 3 0
       ([chunk_of 1000 (Recognized (py ''a''))] @
        (chunk_of 2000 (Recognized []))\<lparr>recognition := Recognized []\<rparr> #
        [chunk_of 1500 (Recognized (py ''b''))]) (initial_vars, fresh_world) = Inr (v0, w0)"
    and "segment_texts v0 = List.map_filter spoken [chunk_of 1000 (Recognized (py ''a''))] @
                            List.map_filter spoken [chunk_of 1500 (Recognized (py ''b''))]"
    and "current_position v0 =
           int (sum_list (map duration ([chunk_of 1000 (Recognized (py ''a''))] @
                  chunk_of 2000 (Recognized []) # [chunk_of 1500 (Recognized (py ''b''))])))"
    by (elim exE conjE)
  then show ?thesis
    unfolding upd
    by (intro exI [of _ v0] exI [of _ w0]) (simp add: List.map_filter_simps spoken_def)
qed

section \<open>The transcript formatter\<close>

text \<open>
  Claim C6. In the paragraphing pass, for every sequence of sentences, a paragraph
  break is emitted after a sentence exactly when it is the 4th, 8th, ... sentence or it
  ends in \<open>.\<close>, \<open>!\<close> or \<open>?\<close> (followed by whitespace at most): the pending paragraph
  with this sentence, stripped, and two line feeds are appended to the output and the
  paragraph starts anew; otherwise the sentence and a space are added to the pending
  paragraph. Both triggers are active at once, so that when every sentence ends in
  such a mark, every sentence is a paragraph of its own.
\<close>

theorem paragraph_break_double_trigger:
  "paragraph_loop 0 (pre @ [sentence]) ([], []) =
     (if (length pre + 1) mod 4 = 0 \<or> ends_terminal sentence
      then (fst (paragraph_loop 0 pre ([], [])) @
              strip (snd (paragraph_loop 0 pre ([], [])) @ sentence @ py '' '') @
              py ''\<newline>\<newline>'',
            [])
      else (fst (paragraph_loop 0 pre ([], [])),
            snd (paragraph_loop 0 pre ([], [])) @ sentence @ py '' ''))
   \<and> ((\<forall>s\<in>set sentences. ends_terminal s) \<longrightarrow>
        paragraph_finish (paragraph_loop 0 sentences ([], []))
          = concat (map (\<lambda>s. strip (s @ py '' '') @ py ''\<newline>\<newline>'') sentences))"
  by (simp add: paragraph_loop_append paragraph_step_def Let_def paragraph_loop_all_terminal
                paragraph_finish_def)

text \<open>
  Instances: a break by the count alone, a break by the punctuation alone, no break,
  and three sentences that each end in a mark.
\<close>

theorem paragraph_break_double_trigger_witness:
  "paragraph_loop 0 ([py ''one'', py ''two'', py ''three''] @ [py ''four'']) ([], [])
     = (py ''one two three four\<newline>\<newline>'', [])
   \<and> paragraph_loop 0 ([py ''One.''] @ [py ''Two!'']) ([], [])
     = (py ''One.\<newline>\<newline>Two!\<newline>\<newline>'', [])
   \<and> paragraph_loop 0 ([py ''One.''] @ [py ''two'']) ([], [])
     = (py ''One.\<newline>\<newline>'', py ''two '')
   \<and> paragraph_finish (paragraph_loop 0 [py ''One.'', py ''Two!'', py ''Three?''] ([], []))
     = py ''One.\<newline>\<newline>Two!\<newline>\<newline>Three?\<newline>\<newline>''"
proof -
  have a: "paragraph_loop 0 [py ''one'', py ''two'', py ''three''] ([], [])
             = ([], py ''one two three '')"
    by code_simp
  have b: "paragraph_loop 0 [py ''One.''] ([], []) = (py ''One.\<newline>\<newline>'', [])"
    by code_simp
  have c: "\<not> ends_terminal (py ''four'')" "ends_terminal (py ''Two!'')"
          "\<not> ends_terminal (py ''two'')" "ends_terminal (py ''One.'')"
          "ends_terminal (py ''Three?'')"
    by code_simp+
  have d: "strip (py ''one two three '' @ py ''four'' @ py '' '') = py ''one two three four''"
          "strip (py ''Two!'' @ py '' '') = py ''Two!''"
          "strip (py ''One.'' @ py '' '') = py ''One.''"
          "strip (py ''Three?'' @ py '' '') = py ''Three?''"
    by code_simp+
  have e: "py ''one two three four'' @ py ''\<newline>\<newline>'' = py ''one two three four\<newline>\<newline>''"
          "py ''One.\<newline>\<newline>'' @ py ''Two!'' @ py ''\<newline>\<newline>'' = py ''One.\<newline>\<newline>Two!\<newline>\<newline>''"
          "py ''two'' @ py '' '' = py ''two ''"
          "py ''One.'' @ py ''\<newline>\<newline>'' @ py ''Two!'' @ py ''\<newline>\<newline>'' @ py ''Three?'' @ py ''\<newline>\<newline>''
             = py ''One.\<newline>\<newline>Two!\<newline>\<newline>Three?\<newline>\<newline>''"
    by code_simp+
  show ?thesis
    using paragraph_break_double_trigger
            [of "[py ''one'', py ''two'', py ''three'']" "py ''four''"
                "[py ''One.'', py ''Two!'', py ''Three?'']"]
          paragraph_break_double_trigger [of "[py ''One.'']" "py ''Two!''" "[]"]
          paragraph_break_double_trigger [of "[py ''One.'']" "py ''two''" "[]"]
    by (simp add: a b c d e del: paragraph_loop.simps py_simps)
qed

text \<open>
  Claim C7. On an input that is already capitalised, the output of the formatter has
  the same text content as the input: they are equal modulo whitespace (the paragraph
  break at the end is whitespace). This holds for every such input, in particular for
  those of at most 4 sentences in a single paragraph wrapped to 80 columns, for every
  case table of the library, and for every line wrapper that changes whitespace only.
\<close>

theorem formatter_preserves_content:
  assumes "capitalized lib text"
    and "\<forall>t. content (fill lib t) = content t"
  shows "content (format_transcription lib text) = content text"
  using content_format_transcription [OF assms(2), of "text"]
        content_capitalize_sentences [OF assms(1)]
  by simp

text \<open>
  Two instances, with the greedy wrapper, and the outputs there: a text of two
  sentences, and one whose sentences are separated by a no-break space (code point
  160), which is whitespace to \<open>re.split\<close> and is dropped.
\<close>

theorem formatter_preserves_content_witness:
  "capitalized ascii_library (py ''Hello world. How are you?'')
   \<and> content (format_transcription ascii_library (py ''Hello world. How are you?''))
       = content (py ''Hello world. How are you?'')
   \<and> format_transcription ascii_library (py ''Hello world. How are you?'')
       = py ''Hello world.\<newline>\<newline>How are you?\<newline>\<newline>''
   \<and> capitalized ascii_library (py ''Oui.'' @ [160] @ py ''Non'')
   \<and> content (format_transcription ascii_library (py ''Oui.'' @ [160] @ py ''Non''))
       = content (py ''Oui.'' @ [160] @ py ''Non'')
   \<and> format_transcription ascii_library (py ''Oui.'' @ [160] @ py ''Non'')
       = py ''Oui.\<newline>\<newline>Non''"
proof -
  have cap: "capitalized ascii_library (py ''Hello world. How are you?'')"
            "capitalized ascii_library (py ''Oui.'' @ [160] @ py ''Non'')"
    by code_simp+
  have out: "format_transcription ascii_library (py ''Hello world. How are you?'')
               = py ''Hello world.\<newline>\<newline>How are you?\<newline>\<newline>''"
            "format_transcription ascii_library (py ''Oui.'' @ [160] @ py ''Non'')
               = py ''Oui.\<newline>\<newline>Non''"
    by code_simp+
  from formatter_preserves_content [OF cap(1) content_wrap80_all]
       formatter_preserves_content [OF cap(2) content_wrap80_all] cap out
  show ?thesis
    by (intro conjI)
qed

text \<open>
  Claim C9. The formatter returns the empty string on the empty string, and there is
  no input on which it returns the text \<open>No speech detected in the audio file.\<close>.
  That text is written by the pipeline itself: when the two output files can be
  opened, the transcript written is that text exactly when no text was recognised.
\<close>

theorem formatter_never_gives_sentinel:
  "format_transcription lib [] = []
   \<and> sentinel = py ''No speech detected in the audio file.''
   \<and> (\<forall>text. format_transcription lib text \<noteq> sentinel)
   \<and> (open_error w output_txt_path = None \<and> open_error w output_srt_path = None \<longrightarrow>
        (\<exists>w' transcript subtitles.
           save_outputs lib vars output_txt_path output_srt_path w = Inr w'
           \<and> written w' = written w @ [(output_txt_path, transcript), (output_srt_path, subtitles)]
           \<and> (transcript = sentinel \<longleftrightarrow> segment_texts vars = [])))"
proof -
  have empty: "format_transcription lib [] = []"
    by (simp add: format_transcription_def)
  have never: "\<forall>text. format_transcription lib text \<noteq> sentinel"
    by (simp add: format_transcription_not_sentinel)
  have save: "\<exists>w' transcript subtitles.
           save_outputs lib vars output_txt_path output_srt_path w = Inr w'
           \<and> written w' = written w @ [(output_txt_path, transcript), (output_srt_path, subtitles)]
           \<and> (transcript = sentinel \<longleftrightarrow> segment_texts vars = [])"
    if ok: "open_error w output_txt_path = None" "open_error w output_srt_path = None"
  proof -
    from save_outputs_ok [OF ok, of lib vars] obtain w' where
      s: "save_outputs lib vars output_txt_path output_srt_path w = Inr w'"
      and "temp_dir w' = temp_dir w"
      and wr: "written w' = written w @
                (if segment_texts vars = []
                 then [(output_txt_path, sentinel), (output_srt_path, sentinel_srt)]
                 else [(output_txt_path,
                          format_transcription lib (join_space (segment_texts vars))),
                       (output_srt_path, concat (map srt_entry (subtitle_entries vars)))])"
      by (elim exE conjE)
    show ?thesis
    proof (cases "segment_texts vars = []")
      case True
      with s wr show ?thesis
        by (intro exI [of _ w'] exI [of _ sentinel] exI [of _ sentinel_srt]) simp
    next
      case False
      with s wr format_transcription_not_sentinel [of lib "join_space (segment_texts vars)"]
      show ?thesis
        by (intro exI [of _ w']
                  exI [of _ "format_transcription lib (join_space (segment_texts vars))"]
                  exI [of _ "concat (map srt_entry (subtitle_entries vars))"]) simp
    qed
  qed
  have lit: "sentinel = py ''No speech detected in the audio file.''"
    by (simp only: sentinel_def)
  from empty lit never save show ?thesis
    by blast
qed

text \<open>An instance: the empty text, and the outputs saved with no recognised text.\<close>

theorem formatter_never_gives_sentinel_witness:
  "format_transcription ascii_library [] = []
   \<and> (\<exists>w' subtitles.
         save_outputs ascii_library initial_vars (py ''a.txt'') (py ''a.srt'') fresh_world = Inr w'
         \<and> written w' = [(py ''a.txt'', py ''No speech detected in the audio file.''),
                          (py ''a.srt'', subtitles)])"
proof -
  note t = formatter_never_gives_sentinel
             [of ascii_library fresh_world "py ''a.txt''" "py ''a.srt''" initial_vars]
  from t have empty: "format_transcription ascii_library [] = []"
    by (elim conjE)
  from t have "open_error fresh_world (py ''a.txt'') = None
                 \<and> open_error fresh_world (py ''a.srt'') = None \<longrightarrow>
        (\<exists>w' transcript subtitles.
           save_outputs ascii_library initial_vars (py ''a.txt'') (py ''a.srt'') fresh_world
             = Inr w'
           \<and> written w' = written fresh_world @
                             [(py ''a.txt'', transcript), (py ''a.srt'', subtitles)]
           \<and> (transcript = sentinel \<longleftrightarrow> segment_texts initial_vars = []))"
    by (elim conjE)
  then obtain w' transcript subtitles where
    "save_outputs ascii_library initial_vars (py ''a.txt'') (py ''a.srt'') fresh_world = Inr w'"
    and "written w' = written fresh_world @
                        [(py ''a.txt'', transcript), (py ''a.srt'', subtitles)]"
    and "transcript = sentinel \<longleftrightarrow> segment_texts initial_vars = []"
    by auto
  then have "save_outputs ascii_library initial_vars (py ''a.txt'') (py ''a.srt'') fresh_world
               = Inr w'
         \<and> written w' = [(py ''a.txt'', py ''No speech detected in the audio file.''),
                          (py ''a.srt'', subtitles)]"
    by (simp add: sentinel_def del: py_simps)
  then have "\<exists>w' subtitles.
         save_outputs ascii_library initial_vars (py ''a.txt'') (py ''a.srt'') fresh_world
           = Inr w'
         \<and> written w' = [(py ''a.txt'', py ''No speech detected in the audio file.''),
                          (py ''a.srt'', subtitles)]"
    by (intro exI [of _ w'] exI [of _ subtitles])
  with empty show ?thesis
    by (intro conjI)
qed

end
